theory Spec2Isabelle
  imports
    Complex_Main
    "HOL-Library.Multiset"
    "HOL-Library.List_Lexorder"
    "HOL-Library.Char_ord"
begin

section \<open>Data model of \<open>plot_time_compexity.py\<close>\<close>

text \<open>
  The script reads a CSV file into a pandas data frame and derives plots and a summary
  from it. A data frame is modelled as the list of its rows, in file order; a row is a
  record of the seven columns the script reads.

  Numbers are modelled exactly: integer columns as \<open>int\<close> and the floating-point
  columns as \<open>real\<close>. Rounding of IEEE doubles and the wrap-around of 64-bit integer
  columns are outside the model. What a NumPy division produces on a zero divisor
  (an infinity or NaN, with a warning and no exception) is kept, as a value of
  \<open>np_float\<close>.
\<close>

record BenchmarkRecord =
  Graph :: string
  Algorithm :: string
  Vertices :: int
  Edges :: int
  Time_ms :: real
  Operations :: int
  MST_Cost :: real

type_synonym DataFrame = "BenchmarkRecord list"

datatype py_error = IndexError | ValueError

datatype np_float = Fin real | PosInf | NegInf | NaN


text \<open>True division of NumPy scalars and arrays: no exception on a zero divisor.\<close>

definition np_truediv :: "real \<Rightarrow> real \<Rightarrow> np_float" where
  "np_truediv a b =
     (if b \<noteq> 0 then Fin (a / b)
      else if a > 0 then PosInf
      else if a < 0 then NegInf
      else NaN)"

text \<open>The comparison \<open><\<close> of floats: every comparison with NaN is false.\<close>

fun float_lt :: "np_float \<Rightarrow> np_float \<Rightarrow> bool" where
  "float_lt NaN y = False"
| "float_lt x NaN = False"
| "float_lt (Fin a) (Fin b) = (a < b)"
| "float_lt (Fin a) PosInf = True"
| "float_lt (Fin a) NegInf = False"
| "float_lt PosInf y = False"
| "float_lt NegInf (Fin b) = True"
| "float_lt NegInf PosInf = True"
| "float_lt NegInf NegInf = False"

text \<open>
  \<open>df[df['Algorithm'] == name]\<close>: the rows of one algorithm, in the order of the frame.
\<close>

definition select_algorithm :: "string \<Rightarrow> DataFrame \<Rightarrow> DataFrame" where
  "select_algorithm name df = filter (\<lambda>r. Algorithm r = name) df"

text \<open>
  \<open>df.sort_values('Vertices')\<close>: the rows in ascending order of \<open>Vertices\<close>. Rows with
  the same number of vertices keep an order that depends on the order of the input; the
  model keeps their input order.
\<close>

definition sort_values_Vertices :: "DataFrame \<Rightarrow> DataFrame" where
  "sort_values_Vertices df = sort_key Vertices df"

text \<open>\<open>a.values[0]\<close>: the first entry of an array, \<open>IndexError\<close> when it is empty.\<close>

definition values0 :: "'a list \<Rightarrow> py_error + 'a" where
  "values0 xs = (case xs of [] \<Rightarrow> Inl IndexError | x # _ \<Rightarrow> Inr x)"

text \<open>
  Elementwise operations on two one-dimensional arrays follow NumPy's broadcasting:
  equal lengths pair the entries by position, an array of length one is repeated, and
  any other pair of lengths raises \<open>ValueError\<close>.
\<close>

definition np_broadcast :: "('a \<Rightarrow> 'b \<Rightarrow> 'c) \<Rightarrow> 'a list \<Rightarrow> 'b list \<Rightarrow> py_error + 'c list" where
  "np_broadcast f xs ys =
     (if length xs = length ys then Inr (map2 f xs ys)
      else if length xs = 1 then Inr (map (f (hd xs)) ys)
      else if length ys = 1 then Inr (map (\<lambda>x. f x (hd ys)) xs)
      else Inl ValueError)"

text \<open>
  \<open>np.allclose(a, b)\<close> with its default tolerances \<open>rtol = 1e-05\<close> and
  \<open>atol = 1e-08\<close>: every pair satisfies \<open>|a - b| <= atol + rtol * |b|\<close>.
\<close>

definition rtol :: real where
  "rtol = 1 / 100000"

definition atol :: real where
  "atol = 1 / 100000000"

definition isclose :: "real \<Rightarrow> real \<Rightarrow> bool" where
  "isclose a b = (\<bar>a - b\<bar> \<le> atol + rtol * \<bar>b\<bar>)"

definition np_allclose :: "real list \<Rightarrow> real list \<Rightarrow> py_error + bool" where
  "np_allclose a b =
     (case np_broadcast isclose a b of
        Inl e \<Rightarrow> Inl e
      | Inr cs \<Rightarrow> Inr (list_all (\<lambda>c. c) cs))"

text \<open>\<open>sum(a)\<close> of an array of booleans: the number of entries that are true.\<close>

definition sum_bools :: "bool list \<Rightarrow> nat" where
  "sum_bools bs = length (filter (\<lambda>b. b) bs)"

section \<open>The execution-time, operation-count and cost reports\<close>

text \<open>
  Each line report plots, per algorithm, one column against \<open>Vertices\<close>, over the rows
  of the algorithm sorted by \<open>Vertices\<close>. A series is the pair of its x and y arrays.
\<close>

definition line_series :: "(BenchmarkRecord \<Rightarrow> 'a) \<Rightarrow> DataFrame \<Rightarrow> int list \<times> 'a list" where
  "line_series col df = (map Vertices df, map col df)"

definition plot_execution_time_comparison ::
    "DataFrame \<Rightarrow> (int list \<times> real list) \<times> (int list \<times> real list)" where
  "plot_execution_time_comparison df =
     (let prim_data = sort_values_Vertices (select_algorithm ''Prim'' df);
          kruskal_data = sort_values_Vertices (select_algorithm ''Kruskal'' df)
      in (line_series Time_ms prim_data, line_series Time_ms kruskal_data))"

definition plot_operations_comparison ::
    "DataFrame \<Rightarrow> (int list \<times> int list) \<times> (int list \<times> int list)" where
  "plot_operations_comparison df =
     (let prim_data = sort_values_Vertices (select_algorithm ''Prim'' df);
          kruskal_data = sort_values_Vertices (select_algorithm ''Kruskal'' df)
      in (line_series Operations prim_data, line_series Operations kruskal_data))"

text \<open>
  The cost report also compares the two cost arrays with \<open>np.allclose\<close> and annotates
  the figure when they are close. The result is the two series and whether the
  annotation is drawn; a mismatch of the array lengths raises.
\<close>

definition plot_mst_cost_verification ::
    "DataFrame \<Rightarrow> py_error + ((int list \<times> real list) \<times> (int list \<times> real list)) \<times> bool" where
  "plot_mst_cost_verification df =
     (let prim_data = sort_values_Vertices (select_algorithm ''Prim'' df);
          kruskal_data = sort_values_Vertices (select_algorithm ''Kruskal'' df)
      in case np_allclose (map MST_Cost prim_data) (map MST_Cost kruskal_data) of
           Inl e \<Rightarrow> Inl e
         | Inr annotated \<Rightarrow>
             Inr ((line_series MST_Cost prim_data, line_series MST_Cost kruskal_data),
                  annotated))"

section \<open>The performance-ratio report\<close>

text \<open>
  \<open>df.groupby('Graph')\<close> iterates over the distinct graph names in ascending order,
  each with the rows of that graph in the order of the frame.
\<close>

definition groupby_Graph :: "DataFrame \<Rightarrow> (string \<times> DataFrame) list" where
  "groupby_Graph df =
     map (\<lambda>g. (g, filter (\<lambda>r. Graph r = g) df)) (sort (remdups (map Graph df)))"

text \<open>
  The loop over the groups, with its two accumulators. The three reads of
  \<open>.values[0]\<close> raise on an empty selection, which ends the loop and the function.
\<close>

fun ratio_loop ::
    "(string \<times> DataFrame) list \<Rightarrow> np_float list \<Rightarrow> int list
       \<Rightarrow> py_error + (np_float list \<times> int list)" where
  "ratio_loop [] ratios vertices = Inr (ratios, vertices)"
| "ratio_loop ((graph_name, grp) # rest) ratios vertices =
     (case values0 (map Time_ms (select_algorithm ''Prim'' grp)) of
        Inl e \<Rightarrow> Inl e
      | Inr prim_time \<Rightarrow>
     (case values0 (map Time_ms (select_algorithm ''Kruskal'' grp)) of
        Inl e \<Rightarrow> Inl e
      | Inr kruskal_time \<Rightarrow>
     (case values0 (map Vertices grp) of
        Inl e \<Rightarrow> Inl e
      | Inr v \<Rightarrow>
          if prim_time > 0
          then ratio_loop rest (ratios @ [np_truediv kruskal_time prim_time]) (vertices @ [v])
          else ratio_loop rest ratios vertices)))"

text \<open>
  \<open>sorted(zip(vertices, ratios))\<close> compares tuples: the first components decide unless
  they are equal. \<open>sorted\<close> is stable and uses \<open><\<close> only; it is modelled as the insertion
  of each element, from left to right, behind the elements that are not greater.
\<close>

fun tuple_lt :: "int \<times> np_float \<Rightarrow> int \<times> np_float \<Rightarrow> bool" where
  "tuple_lt (v1, r1) (v2, r2) = (if v1 \<noteq> v2 then v1 < v2 else float_lt r1 r2)"

fun insert_sorted :: "('a \<Rightarrow> 'a \<Rightarrow> bool) \<Rightarrow> 'a \<Rightarrow> 'a list \<Rightarrow> 'a list" where
  "insert_sorted lt x [] = [x]"
| "insert_sorted lt x (y # ys) =
     (if lt x y then x # y # ys else y # insert_sorted lt x ys)"

fun sorted_from :: "('a \<Rightarrow> 'a \<Rightarrow> bool) \<Rightarrow> 'a list \<Rightarrow> 'a list \<Rightarrow> 'a list" where
  "sorted_from lt acc [] = acc"
| "sorted_from lt acc (x # xs) = sorted_from lt (insert_sorted lt x acc) xs"

definition py_sorted :: "('a \<Rightarrow> 'a \<Rightarrow> bool) \<Rightarrow> 'a list \<Rightarrow> 'a list" where
  "py_sorted lt xs = sorted_from lt [] xs"

text \<open>
  \<open>vertices, ratios = zip(*sorted_pairs)\<close>: with no pair, \<open>zip()\<close> yields nothing and
  the unpacking into two names raises \<open>ValueError\<close>; with at least one pair it yields
  the tuple of the first and the tuple of the second components.
\<close>

definition unzip_pairs :: "('a \<times> 'b) list \<Rightarrow> py_error + ('a list \<times> 'b list)" where
  "unzip_pairs sorted_pairs =
     (if sorted_pairs = [] then Inl ValueError
      else Inr (map fst sorted_pairs, map snd sorted_pairs))"

definition bar_color :: "np_float \<Rightarrow> string" where
  "bar_color r = (if float_lt r (Fin 1) then ''green'' else ''red'')"

record RatioReport =
  bar_vertices :: "int list"
  bar_ratios :: "np_float list"
  bar_colors :: "string list"

definition plot_performance_ratio :: "DataFrame \<Rightarrow> py_error + RatioReport" where
  "plot_performance_ratio df =
     (case ratio_loop (groupby_Graph df) [] [] of
        Inl e \<Rightarrow> Inl e
      | Inr (ratios, vertices) \<Rightarrow>
     (case unzip_pairs (py_sorted tuple_lt (zip vertices ratios)) of
        Inl e \<Rightarrow> Inl e
      | Inr (vertices', ratios') \<Rightarrow>
          Inr \<lparr>bar_vertices = vertices', bar_ratios = ratios',
               bar_colors = map bar_color ratios'\<rparr>))"

section \<open>The edge-density report\<close>

text \<open>
  \<open>df['Edge_Density'] = df['Edges'] / (df['Vertices'] * (df['Vertices'] - 1) / 2)\<close>,
  computed for every row of a copy of the frame. The divisor is zero for a row with
  zero or one vertex, where the division yields an infinity or NaN.
\<close>

definition Edge_Density :: "BenchmarkRecord \<Rightarrow> np_float" where
  "Edge_Density r =
     np_truediv (real_of_int (Edges r))
       (real_of_int (Vertices r * (Vertices r - 1)) / 2)"

text \<open>The scatter plot: per algorithm, density against time, in the order of the frame.\<close>

definition plot_edge_density_impact ::
    "DataFrame \<Rightarrow> (np_float list \<times> real list) \<times> (np_float list \<times> real list)" where
  "plot_edge_density_impact df =
     (let prim_data = select_algorithm ''Prim'' df;
          kruskal_data = select_algorithm ''Kruskal'' df
      in ((map Edge_Density prim_data, map Time_ms prim_data),
          (map Edge_Density kruskal_data, map Time_ms kruskal_data)))"

section \<open>The combined report\<close>

text \<open>
  Panels (a) to (c) repeat the three line reports. Panel (d) draws two groups of bars
  at the positions \<open>x = np.arange(len(prim_data))\<close>, shifted by half the bar width;
  the heights of the second group are the times of Kruskal, and \<open>bar\<close> broadcasts
  positions against heights, which raises when their lengths do not fit.
\<close>

definition bar_width :: real where
  "bar_width = 35 / 100"

definition plot_all_in_one ::
    "DataFrame \<Rightarrow> py_error + ((real \<times> real) list \<times> (real \<times> real) list)" where
  "plot_all_in_one df =
     (let prim_data = sort_values_Vertices (select_algorithm ''Prim'' df);
          kruskal_data = sort_values_Vertices (select_algorithm ''Kruskal'' df);
          x = map real [0..<length prim_data]
      in case np_broadcast Pair (map (\<lambda>i. i - bar_width / 2) x) (map Time_ms prim_data) of
           Inl e \<Rightarrow> Inl e
         | Inr prim_bars \<Rightarrow>
        (case np_broadcast Pair (map (\<lambda>i. i + bar_width / 2) x) (map Time_ms kruskal_data) of
           Inl e \<Rightarrow> Inl e
         | Inr kruskal_bars \<Rightarrow> Inr (prim_bars, kruskal_bars)))"

section \<open>The summary statistics\<close>

text \<open>\<open>Series.mean()\<close>: NaN for an empty series.\<close>

definition series_mean :: "real list \<Rightarrow> np_float" where
  "series_mean xs = (if xs = [] then NaN else Fin (sum_list xs / real (length xs)))"

record Summary =
  prim_avg_time :: np_float
  prim_avg_operations :: np_float
  prim_total_graphs :: nat
  kruskal_avg_time :: np_float
  kruskal_avg_operations :: np_float
  kruskal_total_graphs :: nat
  prim_wins :: nat
  kruskal_wins :: nat
  costs_match :: bool

text \<open>
  The two sub-frames are taken in the order of the frame, with no sort. The win counts
  compare the two time arrays elementwise, the verdict on the costs compares the two cost
  arrays with \<open>np.allclose\<close>; each of the three raises when the lengths do not fit.
\<close>

definition generate_summary_statistics :: "DataFrame \<Rightarrow> py_error + Summary" where
  "generate_summary_statistics df =
     (let prim_data = select_algorithm ''Prim'' df;
          kruskal_data = select_algorithm ''Kruskal'' df
      in case np_broadcast (<) (map Time_ms prim_data) (map Time_ms kruskal_data) of
           Inl e \<Rightarrow> Inl e
         | Inr prim_faster \<Rightarrow>
        (case np_broadcast (<) (map Time_ms kruskal_data) (map Time_ms prim_data) of
           Inl e \<Rightarrow> Inl e
         | Inr kruskal_faster \<Rightarrow>
        (case np_allclose (map MST_Cost prim_data) (map MST_Cost kruskal_data) of
           Inl e \<Rightarrow> Inl e
         | Inr close \<Rightarrow>
             Inr \<lparr>prim_avg_time = series_mean (map Time_ms prim_data),
                  prim_avg_operations = series_mean (map (real_of_int \<circ> Operations) prim_data),
                  prim_total_graphs = length prim_data,
                  kruskal_avg_time = series_mean (map Time_ms kruskal_data),
                  kruskal_avg_operations =
                    series_mean (map (real_of_int \<circ> Operations) kruskal_data),
                  kruskal_total_graphs = length kruskal_data,
                  prim_wins = sum_bools prim_faster,
                  kruskal_wins = sum_bools kruskal_faster,
                  costs_match = close\<rparr>)))"

section \<open>The loader and the entry point\<close>

text \<open>
  \<open>pd.read_csv\<close> is the environment of the script: a function from a path to either the
  message of the exception it raises or the frame it reads. What the script prints is
  a list of console lines; what it writes is the list of the paths of its artifacts.
  The creation of the output directory and the rendering of the figures are not
  modelled: a report fails in the model only where its computation on the data raises.
\<close>

datatype console_line =
    Banner
  | Loaded string nat
  | ErrorLoading string string
  | Generating
  | Saved string
  | AllSaved string
  | ErrorGenerating py_error

definition load_csv_data ::
    "(string \<Rightarrow> string + DataFrame) \<Rightarrow> string \<Rightarrow> DataFrame option \<times> console_line list" where
  "load_csv_data read_csv filepath =
     (case read_csv filepath of
        Inr df \<Rightarrow> (Some df, [Loaded filepath (length df)])
      | Inl e \<Rightarrow> (None, [ErrorLoading filepath e]))"

definition path_join :: "string \<Rightarrow> string \<Rightarrow> string" where
  "path_join dir name =
     (if dir = [] then name
      else if last dir = CHR ''/'' then dir @ name
      else dir @ ''/'' @ name)"

definition raised :: "py_error + 'a \<Rightarrow> py_error option" where
  "raised r = (case r of Inl e \<Rightarrow> Some e | Inr _ \<Rightarrow> None)"

text \<open>
  The seven calls of the \<open>try\<close> block, in their order, each with the name of the file
  it saves once its computation is through.
\<close>

definition report_generators :: "(string \<times> (DataFrame \<Rightarrow> py_error option)) list" where
  "report_generators =
     [(''execution_time_comparison.png'', \<lambda>df. None),
      (''operations_comparison.png'', \<lambda>df. None),
      (''mst_cost_verification.png'', \<lambda>df. raised (plot_mst_cost_verification df)),
      (''performance_ratio.png'', \<lambda>df. raised (plot_performance_ratio df)),
      (''edge_density_impact.png'', \<lambda>df. None),
      (''comprehensive_comparison.png'', \<lambda>df. raised (plot_all_in_one df)),
      (''summary_statistics.txt'', \<lambda>df. raised (generate_summary_statistics df))]"

record Run =
  console :: "console_line list"
  artifacts :: "string list"

text \<open>
  The first exception leaves the \<open>try\<close> block: the handler prints it and the remaining
  reports are not generated.
\<close>

fun run_generators ::
    "(string \<times> (DataFrame \<Rightarrow> py_error option)) list \<Rightarrow> DataFrame \<Rightarrow> string \<Rightarrow> Run \<Rightarrow> Run" where
  "run_generators [] df output run = run\<lparr>console := console run @ [AllSaved output]\<rparr>"
| "run_generators ((name, generate) # rest) df output run =
     (case generate df of
        Some e \<Rightarrow> run\<lparr>console := console run @ [ErrorGenerating e]\<rparr>
      | None \<Rightarrow>
          run_generators rest df output
            (run\<lparr>console := console run @ [Saved (path_join output name)],
                 artifacts := artifacts run @ [path_join output name]\<rparr>))"

definition main :: "(string \<Rightarrow> string + DataFrame) \<Rightarrow> string \<Rightarrow> string \<Rightarrow> Run" where
  "main read_csv input output =
     (case load_csv_data read_csv input of
        (None, printed) \<Rightarrow> \<lparr>console = Banner # printed, artifacts = []\<rparr>
      | (Some df, printed) \<Rightarrow>
          run_generators report_generators df output
            \<lparr>console = Banner # printed @ [Generating], artifacts = []\<rparr>)"

section \<open>Notions of the specification\<close>

text \<open>
  The invariant of the data model: every graph of the frame has exactly one record of
  Prim and exactly one record of Kruskal.
\<close>

definition one_record_per_algorithm :: "DataFrame \<Rightarrow> bool" where
  "one_record_per_algorithm df =
     (\<forall>g \<in> set (map Graph df).
        length (select_algorithm ''Prim'' (filter (\<lambda>r. Graph r = g) df)) = 1 \<and>
        length (select_algorithm ''Kruskal'' (filter (\<lambda>r. Graph r = g) df)) = 1)"

text \<open>
  Every group of the frame has at least one record of Prim and one of Kruskal, so that
  the reads of the loop find their rows; and no group passes the guard of the loop on
  the time of its first record of Prim.
\<close>

definition groups_complete :: "DataFrame \<Rightarrow> bool" where
  "groups_complete df =
     (\<forall>(g, grp) \<in> set (groupby_Graph df).
        select_algorithm ''Prim'' grp \<noteq> [] \<and> select_algorithm ''Kruskal'' grp \<noteq> [])"

definition no_group_passes :: "DataFrame \<Rightarrow> bool" where
  "no_group_passes df =
     (\<forall>(g, grp) \<in> set (groupby_Graph df).
        case map Time_ms (select_algorithm ''Prim'' grp) of
          [] \<Rightarrow> True
        | p # ps \<Rightarrow> \<not> p > 0)"

text \<open>
  No two records of one algorithm have the same number of vertices; and the records of
  one graph agree on the number of vertices.
\<close>

definition distinct_vertices :: "DataFrame \<Rightarrow> bool" where
  "distinct_vertices df =
     (distinct (map Vertices (select_algorithm ''Prim'' df)) \<and>
      distinct (map Vertices (select_algorithm ''Kruskal'' df)))"

definition same_vertices_per_graph :: "DataFrame \<Rightarrow> bool" where
  "same_vertices_per_graph df =
     (\<forall>r \<in> set df. \<forall>r' \<in> set df. Graph r = Graph r' \<longrightarrow> Vertices r = Vertices r')"


text \<open>
  The win counts per graph, by a join on the graph: the number of graphs on which the
  one record of the first algorithm has a smaller time than the one record of the second.
\<close>

definition faster_on :: "string \<Rightarrow> string \<Rightarrow> DataFrame \<Rightarrow> string \<Rightarrow> bool" where
  "faster_on a b df g =
     (case (select_algorithm a (filter (\<lambda>r. Graph r = g) df),
            select_algorithm b (filter (\<lambda>r. Graph r = g) df)) of
        ([ra], [rb]) \<Rightarrow> Time_ms ra < Time_ms rb
      | _ \<Rightarrow> False)"

definition per_graph_wins :: "string \<Rightarrow> string \<Rightarrow> DataFrame \<Rightarrow> nat" where
  "per_graph_wins a b df = length (filter (faster_on a b df) (remdups (map Graph df)))"

text \<open>The ties of the summary: the positions at which the two paired times are equal.\<close>

definition ties :: "DataFrame \<Rightarrow> nat" where
  "ties df =
     sum_bools (map2 (=) (map Time_ms (select_algorithm ''Prim'' df))
                         (map Time_ms (select_algorithm ''Kruskal'' df)))"

text \<open>
  The three reads of the loop body on a group whose selections are not empty: the time
  of its first record of Prim, the time of its first record of Kruskal, the number of
  vertices of its first row; and what the loop appends for a group that passes the guard.
\<close>

definition group_prim_time :: "DataFrame \<Rightarrow> real" where
  "group_prim_time grp = Time_ms (hd (select_algorithm ''Prim'' grp))"

definition group_kruskal_time :: "DataFrame \<Rightarrow> real" where
  "group_kruskal_time grp = Time_ms (hd (select_algorithm ''Kruskal'' grp))"

definition group_passes :: "string \<times> DataFrame \<Rightarrow> bool" where
  "group_passes = (\<lambda>(g, grp). group_prim_time grp > 0)"

definition group_ratio :: "string \<times> DataFrame \<Rightarrow> np_float" where
  "group_ratio = (\<lambda>(g, grp). np_truediv (group_kruskal_time grp) (group_prim_time grp))"

definition group_vertices :: "string \<times> DataFrame \<Rightarrow> int" where
  "group_vertices = (\<lambda>(g, grp). Vertices (hd grp))"

section \<open>Datasets of the scenarios\<close>

text \<open>One line of the CSV file, its fields in the order of the header.\<close>

definition csv_row ::
    "string \<Rightarrow> string \<Rightarrow> int \<Rightarrow> int \<Rightarrow> real \<Rightarrow> int \<Rightarrow> real \<Rightarrow> BenchmarkRecord" where
  "csv_row g a v e t ops c =
     \<lparr>Graph = g, Algorithm = a, Vertices = v, Edges = e, Time_ms = t, Operations = ops,
      MST_Cost = c\<rparr>"

text \<open>
  Scenario A: two graphs of 10 and 20 vertices; each graph's row of Prim is followed by
  its row of Kruskal. The names of the graphs and the columns \<open>Edges\<close> and
  \<open>Operations\<close>, which the scenario leaves open, are parameters.
\<close>

definition scenario_A :: "string \<Rightarrow> string \<Rightarrow> (nat \<Rightarrow> int) \<Rightarrow> (nat \<Rightarrow> int) \<Rightarrow> DataFrame" where
  "scenario_A g1 g2 e ops =
     [csv_row g1 ''Prim'' 10 (e 0) 5 (ops 0) 100,
      csv_row g1 ''Kruskal'' 10 (e 1) 4 (ops 1) 100,
      csv_row g2 ''Prim'' 20 (e 2) 12 (ops 2) 250,
      csv_row g2 ''Kruskal'' 20 (e 3) 9 (ops 3) 250]"

text \<open>Scenario B: the second graph has a row of Prim and none of Kruskal.\<close>

definition scenario_B :: DataFrame where
  "scenario_B =
     [csv_row ''G1'' ''Prim'' 10 20 5 30 100,
      csv_row ''G1'' ''Kruskal'' 10 20 4 40 100,
      csv_row ''G2'' ''Prim'' 20 40 12 50 250]"

text \<open>A frame in which every time of Prim is zero.\<close>

definition all_prim_times_zero :: DataFrame where
  "all_prim_times_zero =
     [csv_row ''G1'' ''Prim'' 10 20 0 30 100,
      csv_row ''G1'' ''Kruskal'' 10 20 4 40 100]"


text \<open>
  Two frames with the same rows in two orders: the first two graphs have the same number
  of vertices, and their rows of Prim are exchanged.
\<close>

definition tied_vertices :: DataFrame where
  "tied_vertices =
     [csv_row ''G1'' ''Prim'' 10 20 5 30 100,
      csv_row ''G2'' ''Prim'' 10 25 7 35 120,
      csv_row ''G3'' ''Prim'' 20 40 9 50 250,
      csv_row ''G1'' ''Kruskal'' 10 20 4 40 100,
      csv_row ''G2'' ''Kruskal'' 10 25 6 45 120,
      csv_row ''G3'' ''Kruskal'' 20 40 8 60 250]"

definition tied_vertices_permuted :: DataFrame where
  "tied_vertices_permuted =
     [csv_row ''G2'' ''Prim'' 10 25 7 35 120,
      csv_row ''G1'' ''Prim'' 10 20 5 30 100,
      csv_row ''G3'' ''Prim'' 20 40 9 50 250,
      csv_row ''G1'' ''Kruskal'' 10 20 4 40 100,
      csv_row ''G2'' ''Kruskal'' 10 25 6 45 120,
      csv_row ''G3'' ''Kruskal'' 20 40 8 60 250]"

text \<open>
  Two frames whose rows of Kruskal list the graphs in the opposite order of the rows of
  Prim. In the first, Prim is faster on both graphs; in the second, on the first graph
  only.
\<close>

definition crossed_order_same_counts :: DataFrame where
  "crossed_order_same_counts =
     [csv_row ''G1'' ''Prim'' 10 20 1 30 100,
      csv_row ''G2'' ''Prim'' 20 40 2 50 250,
      csv_row ''G2'' ''Kruskal'' 20 40 10 60 250,
      csv_row ''G1'' ''Kruskal'' 10 20 10 40 100]"

definition crossed_order_wrong_counts :: DataFrame where
  "crossed_order_wrong_counts =
     [csv_row ''G1'' ''Prim'' 10 20 5 30 100,
      csv_row ''G2'' ''Prim'' 20 40 12 50 250,
      csv_row ''G2'' ''Kruskal'' 20 40 9 60 250,
      csv_row ''G1'' ''Kruskal'' 10 20 20 40 100]"

section \<open>Evaluation and basic facts\<close>

lemmas evaluate_reports =
  csv_row_def plot_performance_ratio_def groupby_Graph_def select_algorithm_def values0_def
  np_truediv_def py_sorted_def unzip_pairs_def bar_color_def plot_mst_cost_verification_def
  sort_values_Vertices_def np_allclose_def np_broadcast_def isclose_def rtol_def atol_def
  line_series_def generate_summary_statistics_def sum_bools_def series_mean_def
  plot_all_in_one_def

lemma values0_Nil: "values0 [] = Inl IndexError"
  by (simp add: values0_def)

lemma values0_map: "xs \<noteq> [] \<Longrightarrow> values0 (map f xs) = Inr (f (hd xs))"
  by (cases xs) (simp_all add: values0_def)

lemma select_nonempty_group: "select_algorithm a grp \<noteq> [] \<Longrightarrow> grp \<noteq> []"
  by (auto simp add: select_algorithm_def)

lemma groupby_Graph_set:
  "(g, grp) \<in> set (groupby_Graph df) \<longleftrightarrow>
     g \<in> set (map Graph df) \<and> grp = filter (\<lambda>r. Graph r = g) df"
  by (auto simp add: groupby_Graph_def)

subsection \<open>The loop of the performance-ratio report\<close>

text \<open>A group without a record of Prim or of Kruskal ends the loop with \<open>IndexError\<close>.\<close>

lemma ratio_loop_missing:
  assumes "(g, grp) \<in> set groups"
    and "select_algorithm ''Prim'' grp = [] \<or> select_algorithm ''Kruskal'' grp = []"
  shows "ratio_loop groups ratios vertices = Inl IndexError"
  using assms
proof (induction groups arbitrary: ratios vertices)
  case Nil
  then show ?case by simp
next
  case (Cons a groups)
  obtain h hgrp where a: "a = (h, hgrp)" by (cases a)
  show ?case
  proof (cases "select_algorithm ''Prim'' hgrp = [] \<or> select_algorithm ''Kruskal'' hgrp = []")
    case True
    then show ?thesis
      by (cases "select_algorithm ''Prim'' hgrp = []")
         (auto simp add: a values0_Nil values0_map)
  next
    case False
    with Cons.prems a have "(g, grp) \<in> set groups" by auto
    with Cons.IH Cons.prems(2) have "\<And>rs vs. ratio_loop groups rs vs = Inl IndexError"
      by blast
    moreover from False have "hgrp \<noteq> []" by (auto dest: select_nonempty_group)
    ultimately show ?thesis using False
      by (simp add: a values0_map)
  qed
qed

text \<open>
  When every group has a record of both algorithms, the loop runs through and appends,
  for each group that passes the guard, what its first records give.
\<close>

lemma ratio_loop_complete:
  assumes "\<forall>(g, grp) \<in> set groups.
             select_algorithm ''Prim'' grp \<noteq> [] \<and> select_algorithm ''Kruskal'' grp \<noteq> []"
  shows "ratio_loop groups ratios vertices =
           Inr (ratios @ map group_ratio (filter group_passes groups),
                vertices @ map group_vertices (filter group_passes groups))"
  using assms
proof (induction groups arbitrary: ratios vertices)
  case Nil
  then show ?case by simp
next
  case (Cons a groups)
  obtain h hgrp where a: "a = (h, hgrp)" by (cases a)
  from Cons.prems a
  have ne: "select_algorithm ''Prim'' hgrp \<noteq> []" "select_algorithm ''Kruskal'' hgrp \<noteq> []"
    by auto
  from Cons.prems
  have rest: "\<forall>(g, grp) \<in> set groups.
                select_algorithm ''Prim'' grp \<noteq> [] \<and> select_algorithm ''Kruskal'' grp \<noteq> []"
    by auto
  from ne have "hgrp \<noteq> []" by (auto dest: select_nonempty_group)
  with ne show ?case
    by (simp add: a values0_map Cons.IH [OF rest] group_passes_def group_ratio_def
          group_vertices_def group_prim_time_def group_kruskal_time_def)
qed

lemma ratio_loop_none_passes:
  assumes "\<forall>(g, grp) \<in> set groups.
             select_algorithm ''Prim'' grp \<noteq> [] \<and> select_algorithm ''Kruskal'' grp \<noteq> []"
    and "\<forall>(g, grp) \<in> set groups.
             case map Time_ms (select_algorithm ''Prim'' grp) of
               [] \<Rightarrow> True
             | p # ps \<Rightarrow> \<not> p > 0"
  shows "ratio_loop groups ratios vertices = Inr (ratios, vertices)"
proof -
  have "\<not> group_passes x" if "x \<in> set groups" for x
  proof -
    obtain g grp where x: "x = (g, grp)" by (cases x)
    from that x assms(1) have "select_algorithm ''Prim'' grp \<noteq> []" by auto
    then obtain r rs where "select_algorithm ''Prim'' grp = r # rs"
      by (cases "select_algorithm ''Prim'' grp") auto
    with that x assms(2) show ?thesis
      by (auto simp add: group_passes_def group_prim_time_def)
  qed
  then have "filter group_passes groups = []"
    by (simp add: filter_empty_conv)
  with ratio_loop_complete [OF assms(1)] show ?thesis by simp
qed

subsection \<open>The sort of the pairs\<close>

lemma set_insert_sorted: "set (insert_sorted lt x ys) = insert x (set ys)"
  by (induction ys) auto





lemma sorted_fst_insert_sorted:
  "sorted (map fst ys) \<Longrightarrow> sorted (map fst (insert_sorted tuple_lt x ys))"
proof (induction ys)
  case Nil
  then show ?case by simp
next
  case (Cons y ys)
  obtain v1 r1 where x: "x = (v1, r1)" by (cases x)
  obtain v2 r2 where y: "y = (v2, r2)" by (cases y)
  show ?case
  proof (cases "tuple_lt x y")
    case True
    then have "v1 \<le> v2" by (simp add: x y split: if_splits)
    with Cons.prems True show ?thesis by (auto simp add: x y)
  next
    case False
    then have "v2 \<le> v1" by (simp add: x y split: if_splits)
    with Cons False show ?thesis
      by (auto simp add: x y set_insert_sorted)
  qed
qed

lemma sorted_fst_sorted_from:
  "sorted (map fst acc) \<Longrightarrow> sorted (map fst (sorted_from tuple_lt acc xs))"
  by (induction xs arbitrary: acc) (auto simp add: sorted_fst_insert_sorted)

lemma sorted_fst_py_sorted: "sorted (map fst (py_sorted tuple_lt xs))"
  by (simp add: py_sorted_def sorted_fst_sorted_from)

subsection \<open>The win counts\<close>

lemma sum_bools_Nil: "sum_bools [] = 0"
  by (simp add: sum_bools_def)

lemma sum_bools_Cons: "sum_bools (b # bs) = (if b then 1 else 0) + sum_bools bs"
  by (simp add: sum_bools_def)

lemma win_counts_partition:
  "length xs = length ys \<Longrightarrow>
     sum_bools (map2 (<) xs ys) + sum_bools (map2 (<) ys xs) + sum_bools (map2 (=) xs ys)
       = length xs"
  for xs ys :: "real list"
  by (induction xs ys rule: list_induct2) (auto simp add: sum_bools_Cons sum_bools_Nil)

subsection \<open>The loop against the join on the graph\<close>

text \<open>
  Under the invariant of the data model the groups of the loop and the records of Prim
  correspond one to one, and what the loop appends are the speed ratios of the
  specification.
\<close>

lemma select_rows_commute:
  "select_algorithm a (filter (\<lambda>r. Graph r = g) df) =
     filter (\<lambda>r. Graph r = g) (select_algorithm a df)"
  by (simp add: select_algorithm_def conj_commute)

lemma one_record_groups_complete:
  assumes "one_record_per_algorithm df"
  shows "groups_complete df"
  unfolding groups_complete_def
proof (clarify)
  fix g grp
  assume "(g, grp) \<in> set (groupby_Graph df)"
  then have g: "g \<in> set (map Graph df)" and grp: "grp = filter (\<lambda>r. Graph r = g) df"
    by (simp_all add: groupby_Graph_set)
  from assms g
  have "length (select_algorithm ''Prim'' grp) = 1" "length (select_algorithm ''Kruskal'' grp) = 1"
    unfolding one_record_per_algorithm_def grp by blast+
  then show "select_algorithm ''Prim'' grp \<noteq> [] \<and> select_algorithm ''Kruskal'' grp \<noteq> []"
    by auto
qed

lemma one_record_singleton:
  assumes "one_record_per_algorithm df"
    and "r \<in> set (select_algorithm a df)" and "a = ''Prim'' \<or> a = ''Kruskal''"
  shows "select_algorithm a (filter (\<lambda>x. Graph x = Graph r) df) = [r]"
proof -
  from assms(2) have "Graph r \<in> set (map Graph df)"
    by (auto simp add: select_algorithm_def)
  with assms(1,3) have "length (select_algorithm a (filter (\<lambda>x. Graph x = Graph r) df)) = 1"
    unfolding one_record_per_algorithm_def by blast
  then obtain x where x: "select_algorithm a (filter (\<lambda>x. Graph x = Graph r) df) = [x]"
    by (auto simp add: length_Suc_conv)
  from assms(2) have "r \<in> set (select_algorithm a (filter (\<lambda>x. Graph x = Graph r) df))"
    by (simp add: select_rows_commute)
  with x show ?thesis by simp
qed

lemma one_record_graphs:
  assumes "one_record_per_algorithm df" and "a = ''Prim'' \<or> a = ''Kruskal''"
  shows "mset (map Graph (select_algorithm a df)) = mset (sort (remdups (map Graph df)))"
proof -
  let ?P = "select_algorithm a df"
  have cnt: "count (mset (map Graph ?P)) g = 1" if "g \<in> set (map Graph df)" for g
  proof -
    have "count (mset (map Graph ?P)) g = length (filter ((=) g) (map Graph ?P))"
      by (simp only: count_mset count_list_eq_length_filter)
    also have "\<dots> = length (filter (\<lambda>r. Graph r = g) ?P)"
      by (simp add: filter_map o_def eq_commute)
    also have "\<dots> = length (select_algorithm a (filter (\<lambda>r. Graph r = g) df))"
      by (simp add: select_rows_commute)
    also from assms that have "\<dots> = 1"
      unfolding one_record_per_algorithm_def by blast
    finally show ?thesis .
  qed
  have sub: "set (map Graph ?P) \<subseteq> set (map Graph df)"
    by (auto simp add: select_algorithm_def)
  have "set (map Graph df) \<subseteq> set (map Graph ?P)"
  proof
    fix g assume "g \<in> set (map Graph df)"
    from cnt [OF this] have "count (mset (map Graph ?P)) g \<noteq> 0"
      by (metis zero_neq_one)
    with count_mset_0_iff [of "map Graph ?P" g] show "g \<in> set (map Graph ?P)"
      by blast
  qed
  with sub have seteq: "set (map Graph ?P) = set (remdups (map Graph df))" by auto
  have "distinct (map Graph ?P)"
    unfolding distinct_count_atmost_1
  proof (intro allI)
    fix g
    show "count (mset (map Graph ?P)) g = (if g \<in> set (map Graph ?P) then 1 else 0)"
    proof (cases "g \<in> set (map Graph ?P)")
      case True
      with sub have "g \<in> set (map Graph df)" by blast
      from cnt [OF this] True show ?thesis by (simp only: if_True)
    next
      case False
      with count_mset_0_iff [of "map Graph ?P" g]
      have "count (mset (map Graph ?P)) g = 0" by blast
      with False show ?thesis by (simp only: if_False)
    qed
  qed
  then have "mset (map Graph ?P) = mset (remdups (map Graph df))"
    using set_eq_iff_mset_eq_distinct [of "map Graph ?P" "remdups (map Graph df)"] seteq
      distinct_remdups [of "map Graph df"]
    by blast
  then show ?thesis by (simp only: mset_sort)
qed





subsection \<open>The order of the series\<close>

lemma sorted_frame_permuted:
  assumes "mset df' = mset df" and "distinct (map Vertices (select_algorithm a df))"
  shows "sort_values_Vertices (select_algorithm a df') = sort_values_Vertices (select_algorithm a df)"
proof -
  from assms(1) have "mset (select_algorithm a df') = mset (select_algorithm a df)"
    by (simp add: select_algorithm_def)
  moreover from this assms(2) have "inj_on Vertices (set (select_algorithm a df'))"
    by (metis distinct_map mset_eq_setD)
  ultimately show ?thesis
    unfolding sort_values_Vertices_def by (rule sort_key_eq_sort_key)
qed

lemma sorted_frame_ascending: "sorted (map Vertices (sort_values_Vertices df))"
  by (simp add: sort_values_Vertices_def)

lemma one_record_permuted:
  assumes "mset df' = mset df" and "one_record_per_algorithm df"
  shows "one_record_per_algorithm df'"
proof -
  have "length (select_algorithm a (filter (\<lambda>r. Graph r = g) df')) =
        length (select_algorithm a (filter (\<lambda>r. Graph r = g) df))" for a g
  proof -
    from assms(1)
    have "mset (select_algorithm a (filter (\<lambda>r. Graph r = g) df')) =
          mset (select_algorithm a (filter (\<lambda>r. Graph r = g) df))"
      by (simp add: select_algorithm_def)
    then show ?thesis by (rule mset_eq_length)
  qed
  moreover from assms(1) have "set (map Graph df') = set (map Graph df)"
    by (metis mset_eq_setD mset_map)
  ultimately show ?thesis
    using assms(2) unfolding one_record_per_algorithm_def by simp
qed

lemma groups_permuted:
  assumes perm: "mset df' = mset df" and inv: "one_record_per_algorithm df"
    and sv: "same_vertices_per_graph df" and g: "g \<in> set (map Graph df)"
  shows "group_passes (g, filter (\<lambda>r. Graph r = g) df') = group_passes (g, filter (\<lambda>r. Graph r = g) df)"
    and "group_ratio (g, filter (\<lambda>r. Graph r = g) df') = group_ratio (g, filter (\<lambda>r. Graph r = g) df)"
    and "group_vertices (g, filter (\<lambda>r. Graph r = g) df') = group_vertices (g, filter (\<lambda>r. Graph r = g) df)"
proof -
  let ?rows = "filter (\<lambda>r. Graph r = g) df" and ?rows' = "filter (\<lambda>r. Graph r = g) df'"
  have sel: "select_algorithm a ?rows' = select_algorithm a ?rows"
    if a: "a = ''Prim'' \<or> a = ''Kruskal''" for a
  proof -
    from inv g a have "length (select_algorithm a ?rows) = 1"
      unfolding one_record_per_algorithm_def by blast
    then obtain r where r: "select_algorithm a ?rows = [r]"
      by (auto simp add: length_Suc_conv)
    from perm have "mset (select_algorithm a ?rows') = mset (select_algorithm a ?rows)"
      by (simp add: select_algorithm_def)
    with r have "mset (select_algorithm a ?rows') = {#r#}" by simp
    then have "select_algorithm a ?rows' = [r]" by (simp only: mset_single_iff)
    with r show ?thesis by simp
  qed
  from sel show "group_passes (g, ?rows') = group_passes (g, ?rows)"
    by (simp add: group_passes_def group_prim_time_def)
  from sel show "group_ratio (g, ?rows') = group_ratio (g, ?rows)"
    by (simp add: group_ratio_def group_prim_time_def group_kruskal_time_def)
  from perm have seteq: "set df' = set df" by (rule mset_eq_setD)
  from g have ne: "?rows \<noteq> []" by (auto simp add: filter_empty_conv)
  from g seteq have ne': "?rows' \<noteq> []" by (auto simp add: filter_empty_conv)
  from ne have "hd ?rows \<in> set ?rows" by (rule hd_in_set)
  then have 1: "hd ?rows \<in> set df" "Graph (hd ?rows) = g" by auto
  from ne' have "hd ?rows' \<in> set ?rows'" by (rule hd_in_set)
  with seteq have 2: "hd ?rows' \<in> set df" "Graph (hd ?rows') = g" by auto
  from sv have "Vertices r = Vertices r'"
    if "r \<in> set df" "r' \<in> set df" "Graph r = Graph r'" for r r'
    using that unfolding same_vertices_per_graph_def by blast
  from this [OF 2(1) 1(1)] 1(2) 2(2) have "Vertices (hd ?rows') = Vertices (hd ?rows)"
    by simp
  then show "group_vertices (g, ?rows') = group_vertices (g, ?rows)"
    by (simp add: group_vertices_def)
qed

lemma ratio_report_permuted:
  assumes perm: "mset df' = mset df" and inv: "one_record_per_algorithm df"
    and sv: "same_vertices_per_graph df"
  shows "plot_performance_ratio df' = plot_performance_ratio df"
proof -
  let ?F = "\<lambda>g. (g, filter (\<lambda>r. Graph r = g) df)"
  let ?F' = "\<lambda>g. (g, filter (\<lambda>r. Graph r = g) df')"
  let ?keys = "sort (remdups (map Graph df))"
  from perm have "set (map Graph df') = set (map Graph df)"
    by (metis mset_eq_setD mset_map)
  then have "sort (remdups (map Graph df')) = ?keys"
    by (simp only: sorted_list_of_set_sort_remdups [symmetric])
  then have groups': "groupby_Graph df' = map ?F' ?keys"
    by (simp add: groupby_Graph_def)
  have groups: "groupby_Graph df = map ?F ?keys"
    by (simp add: groupby_Graph_def)
  have key: "g \<in> set (map Graph df)" if "g \<in> set ?keys" for g
    using that by simp
  have pass: "filter (\<lambda>g. group_passes (?F' g)) ?keys = filter (\<lambda>g. group_passes (?F g)) ?keys"
    by (rule filter_cong [OF refl]) (rule groups_permuted(1) [OF perm inv sv key])
  have ratios: "map group_ratio (filter group_passes (groupby_Graph df')) =
                map group_ratio (filter group_passes (groupby_Graph df))"
  proof -
    have "map group_ratio (filter group_passes (groupby_Graph df')) =
            map (\<lambda>g. group_ratio (?F' g)) (filter (\<lambda>g. group_passes (?F' g)) ?keys)"
      by (simp add: groups' filter_map o_def)
    also have "\<dots> = map (\<lambda>g. group_ratio (?F g)) (filter (\<lambda>g. group_passes (?F g)) ?keys)"
      unfolding pass
      by (rule map_cong [OF refl]) (rule groups_permuted(2) [OF perm inv sv key], simp)
    also have "\<dots> = map group_ratio (filter group_passes (groupby_Graph df))"
      by (simp add: groups filter_map o_def)
    finally show ?thesis .
  qed
  have verts: "map group_vertices (filter group_passes (groupby_Graph df')) =
                map group_vertices (filter group_passes (groupby_Graph df))"
  proof -
    have "map group_vertices (filter group_passes (groupby_Graph df')) =
            map (\<lambda>g. group_vertices (?F' g)) (filter (\<lambda>g. group_passes (?F' g)) ?keys)"
      by (simp add: groups' filter_map o_def)
    also have "\<dots> = map (\<lambda>g. group_vertices (?F g)) (filter (\<lambda>g. group_passes (?F g)) ?keys)"
      unfolding pass
      by (rule map_cong [OF refl]) (rule groups_permuted(3) [OF perm inv sv key], simp)
    also have "\<dots> = map group_vertices (filter group_passes (groupby_Graph df))"
      by (simp add: groups filter_map o_def)
    finally show ?thesis .
  qed
  from one_record_groups_complete [OF inv]
  have c: "\<forall>(g, grp) \<in> set (groupby_Graph df).
          select_algorithm ''Prim'' grp \<noteq> [] \<and> select_algorithm ''Kruskal'' grp \<noteq> []"
    by (simp add: groups_complete_def)
  from one_record_groups_complete [OF one_record_permuted [OF perm inv]]
  have c': "\<forall>(g, grp) \<in> set (groupby_Graph df').
          select_algorithm ''Prim'' grp \<noteq> [] \<and> select_algorithm ''Kruskal'' grp \<noteq> []"
    by (simp add: groups_complete_def)
  have "ratio_loop (groupby_Graph df') [] [] = ratio_loop (groupby_Graph df) [] []"
    by (simp only: ratio_loop_complete [OF c] ratio_loop_complete [OF c'] ratios verts)
  then show ?thesis
    by (simp only: plot_performance_ratio_def)
qed

lemma ratio_report_ascending:
  assumes "plot_performance_ratio df = Inr rep"
  shows "sorted (bar_vertices rep)"
proof -
  from assms obtain ratios vertices where
    "bar_vertices rep = map fst (py_sorted tuple_lt (zip vertices ratios))"
    by (auto simp add: plot_performance_ratio_def unzip_pairs_def split: sum.splits if_splits)
  then show ?thesis by (simp only: sorted_fst_py_sorted)
qed

subsection \<open>The win counts against the join on the graph\<close>

lemma sum_bools_map2_less:
  "sum_bools (map2 (<) (map Time_ms ps) (map Time_ms ks)) =
     length (filter (\<lambda>(p, k). Time_ms p < Time_ms k) (zip ps ks))"
proof -
  have "map2 (<) (map Time_ms ps) (map Time_ms ks) =
          map (\<lambda>(p, k). Time_ms p < Time_ms k) (zip ps ks)"
    by (simp add: zip_map_map split_def)
  then show ?thesis
    by (simp add: sum_bools_def o_def split_def)
qed

lemma positional_wins_per_graph:
  assumes inv: "one_record_per_algorithm df"
    and a: "a = ''Prim'' \<or> a = ''Kruskal''" and b: "b = ''Prim'' \<or> b = ''Kruskal''"
    and same: "map Graph (select_algorithm a df) = map Graph (select_algorithm b df)"
  shows "sum_bools (map2 (<) (map Time_ms (select_algorithm a df))
                              (map Time_ms (select_algorithm b df))) =
           per_graph_wins a b df"
proof -
  let ?A = "select_algorithm a df" and ?B = "select_algorithm b df"
  let ?Q = "faster_on a b df"
  from same have len: "length ?A = length ?B" by (rule map_eq_imp_length_eq)
  have pair: "?Q (Graph p) = (Time_ms p < Time_ms k)" if "(p, k) \<in> set (zip ?A ?B)" for p k
  proof -
    from that obtain i where i: "i < length ?A" "i < length ?B" "p = ?A ! i" "k = ?B ! i"
      by (auto simp add: in_set_zip)
    from i have pA: "p \<in> set ?A" and kB: "k \<in> set ?B" by simp_all
    from i have "Graph p = map Graph ?A ! i" "Graph k = map Graph ?B ! i" by simp_all
    with same have g: "Graph k = Graph p" by simp
    from one_record_singleton [OF inv pA a]
    have 1: "select_algorithm a (filter (\<lambda>x. Graph x = Graph p) df) = [p]" .
    from one_record_singleton [OF inv kB b] g
    have 2: "select_algorithm b (filter (\<lambda>x. Graph x = Graph p) df) = [k]" by simp
    from 1 2 show ?thesis by (simp add: faster_on_def)
  qed
  have "per_graph_wins a b df = size (filter_mset ?Q (mset (remdups (map Graph df))))"
    unfolding per_graph_wins_def by (simp only: mset_filter [symmetric] size_mset)
  also have "mset (remdups (map Graph df)) = mset (map Graph ?A)"
    using one_record_graphs [OF inv a] by (simp only: mset_sort)
  also have "size (filter_mset ?Q (mset (map Graph ?A))) = length (filter ?Q (map Graph ?A))"
    by (simp only: mset_filter [symmetric] size_mset)
  also have "\<dots> = length (filter (\<lambda>p. ?Q (Graph p)) ?A)"
    by (simp add: o_def)
  also have "\<dots> = length (filter (\<lambda>p. ?Q (Graph p)) (map fst (zip ?A ?B)))"
    using len by simp
  also have "\<dots> = length (filter (\<lambda>(p, k). ?Q (Graph p)) (zip ?A ?B))"
    by (simp add: o_def split_def)
  also have "filter (\<lambda>(p, k). ?Q (Graph p)) (zip ?A ?B) =
             filter (\<lambda>(p, k). Time_ms p < Time_ms k) (zip ?A ?B)"
    by (rule filter_cong [OF refl]) (auto simp add: pair)
  finally show ?thesis
    by (simp only: sum_bools_map2_less)
qed

subsection \<open>The comparison of the costs\<close>




section \<open>The claims\<close>

text \<open>
  C1, as amended. The performance-ratio report does not skip a graph whose group lacks
  a record: when some graph of the frame has no record of Prim or no record of Kruskal,
  the report raises \<open>IndexError\<close> and produces no ratio series at all. Nor is a graph
  with several records of one algorithm skipped: when every graph has at least one
  record of each algorithm, the loop runs through and takes, for each graph, its first
  record of Prim and its first record of Kruskal.
\<close>

theorem missing_record_raises:
  "(g \<in> set (map Graph df) \<and>
    (select_algorithm ''Prim'' (filter (\<lambda>r. Graph r = g) df) = [] \<or>
     select_algorithm ''Kruskal'' (filter (\<lambda>r. Graph r = g) df) = [])
      \<longrightarrow> plot_performance_ratio df = Inl IndexError) \<and>
   (groups_complete df
      \<longrightarrow> ratio_loop (groupby_Graph df) [] [] =
            Inr (map group_ratio (filter group_passes (groupby_Graph df)),
                 map group_vertices (filter group_passes (groupby_Graph df))))"
proof (intro conjI impI)
  assume a: "g \<in> set (map Graph df) \<and>
    (select_algorithm ''Prim'' (filter (\<lambda>r. Graph r = g) df) = [] \<or>
     select_algorithm ''Kruskal'' (filter (\<lambda>r. Graph r = g) df) = [])"
  then have "(g, filter (\<lambda>r. Graph r = g) df) \<in> set (groupby_Graph df)"
    by (simp add: groupby_Graph_set)
  from ratio_loop_missing [OF this] a show "plot_performance_ratio df = Inl IndexError"
    by (simp add: plot_performance_ratio_def)
next
  assume "groups_complete df"
  then have "\<forall>(g, grp) \<in> set (groupby_Graph df).
        select_algorithm ''Prim'' grp \<noteq> [] \<and> select_algorithm ''Kruskal'' grp \<noteq> []"
    by (simp add: groups_complete_def)
  from ratio_loop_complete [OF this, of "[]" "[]"]
  show "ratio_loop (groupby_Graph df) [] [] =
            Inr (map group_ratio (filter group_passes (groupby_Graph df)),
                 map group_vertices (filter group_passes (groupby_Graph df)))"
    by simp
qed

text \<open>
  The theorem at Scenario B, whose second graph has no record of Kruskal, and at
  Scenario A, where the loop runs through.
\<close>

theorem missing_record_raises_witness:
  "''G2'' \<in> set (map Graph scenario_B) \<and>
   select_algorithm ''Kruskal'' (filter (\<lambda>r. Graph r = ''G2'') scenario_B) = [] \<and>
   plot_performance_ratio scenario_B = Inl IndexError \<and>
   groups_complete (scenario_A ''G1'' ''G2'' (\<lambda>i. 0) (\<lambda>i. 0)) \<and>
   ratio_loop (groupby_Graph (scenario_A ''G1'' ''G2'' (\<lambda>i. 0) (\<lambda>i. 0))) [] [] =
     Inr ([Fin (4 / 5), Fin (3 / 4)], [10, 20])"
proof -
  let ?A = "scenario_A ''G1'' ''G2'' (\<lambda>i. 0) (\<lambda>i. 0)"
  have 1: "''G2'' \<in> set (map Graph scenario_B)"
    by (simp add: scenario_B_def csv_row_def)
  have 2: "select_algorithm ''Kruskal'' (filter (\<lambda>r. Graph r = ''G2'') scenario_B) = []"
    by (simp add: scenario_B_def csv_row_def select_algorithm_def)
  have 3: "groups_complete ?A"
    by (simp add: groups_complete_def scenario_A_def csv_row_def groupby_Graph_def
          select_algorithm_def)
  have 4: "map group_ratio (filter group_passes (groupby_Graph ?A)) = [Fin (4 / 5), Fin (3 / 4)]"
    by (simp add: scenario_A_def csv_row_def groupby_Graph_def select_algorithm_def
          group_passes_def group_ratio_def group_prim_time_def group_kruskal_time_def
          np_truediv_def)
  have 5: "map group_vertices (filter group_passes (groupby_Graph ?A)) = [10, 20]"
    by (simp add: scenario_A_def csv_row_def groupby_Graph_def select_algorithm_def
          group_passes_def group_vertices_def group_prim_time_def)
  from missing_record_raises [of "''G2''" scenario_B] 1 2
  have "plot_performance_ratio scenario_B = Inl IndexError" by blast
  moreover from missing_record_raises [of "''G2''" ?A] 3 4 5
  have "ratio_loop (groupby_Graph ?A) [] [] = Inr ([Fin (4 / 5), Fin (3 / 4)], [10, 20])"
    by simp
  ultimately show ?thesis using 1 2 3 by blast
qed

text \<open>
  C1, as stated, fails at Scenario B: the report raises instead of showing the one
  ratio of the first graph.
\<close>

theorem scenario_B_not_skipped:
  "plot_performance_ratio scenario_B = Inl IndexError \<and>
   plot_performance_ratio scenario_B \<noteq>
     Inr \<lparr>bar_vertices = [10], bar_ratios = [Fin (4 / 5)], bar_colors = [''green'']\<rparr>"
  by (simp add: scenario_B_def evaluate_reports)









text \<open>
  C6. When the frame has as many records of Prim as of Kruskal, the summary is written
  and its win counts and the ties add up to the number of graphs it reports, so their
  sum does not exceed it; without ties the two win counts add up to that number.
\<close>

theorem win_count_invariant:
  assumes "length (select_algorithm ''Prim'' df) = length (select_algorithm ''Kruskal'' df)"
  shows "\<exists>s. generate_summary_statistics df = Inr s \<and>
           prim_total_graphs s = kruskal_total_graphs s \<and>
           prim_wins s + kruskal_wins s + ties df = prim_total_graphs s \<and>
           prim_wins s + kruskal_wins s + ties df \<le> prim_total_graphs s \<and>
           (ties df = 0 \<longrightarrow> prim_wins s + kruskal_wins s = prim_total_graphs s)"
proof -
  let ?p = "map Time_ms (select_algorithm ''Prim'' df)"
  let ?k = "map Time_ms (select_algorithm ''Kruskal'' df)"
  from assms have len: "length ?p = length ?k" by simp
  have part: "sum_bools (map2 (<) ?p ?k) + sum_bools (map2 (<) ?k ?p) + sum_bools (map2 (=) ?p ?k)
                = length (select_algorithm ''Prim'' df)"
    using win_counts_partition [OF len] by simp
  obtain c where c: "np_allclose (map MST_Cost (select_algorithm ''Prim'' df))
                                 (map MST_Cost (select_algorithm ''Kruskal'' df)) = Inr c"
    using assms by (simp add: np_allclose_def np_broadcast_def)
  show ?thesis
    using assms part c
    by (auto simp add: generate_summary_statistics_def np_broadcast_def ties_def Let_def)
qed

text \<open>
  The ties are zero exactly when no two paired times are equal. The theorem at
  Scenario A, which has two graphs and no tie.
\<close>

lemma ties_zero_iff:
  "ties df = 0 \<longleftrightarrow>
     (\<forall>(p, k) \<in> set (zip (map Time_ms (select_algorithm ''Prim'' df))
                           (map Time_ms (select_algorithm ''Kruskal'' df))). p \<noteq> k)"
  by (auto simp add: ties_def sum_bools_def filter_empty_conv)

theorem win_count_invariant_witness:
  "length (select_algorithm ''Prim'' (scenario_A ''G1'' ''G2'' (\<lambda>i. 0) (\<lambda>i. 0))) =
   length (select_algorithm ''Kruskal'' (scenario_A ''G1'' ''G2'' (\<lambda>i. 0) (\<lambda>i. 0))) \<and>
   ties (scenario_A ''G1'' ''G2'' (\<lambda>i. 0) (\<lambda>i. 0)) = 0 \<and>
   (\<exists>s. generate_summary_statistics (scenario_A ''G1'' ''G2'' (\<lambda>i. 0) (\<lambda>i. 0)) = Inr s \<and>
        prim_wins s + kruskal_wins s = prim_total_graphs s \<and> prim_total_graphs s = 2)"
proof -
  let ?A = "scenario_A ''G1'' ''G2'' (\<lambda>i. 0) (\<lambda>i. 0)"
  have 1: "length (select_algorithm ''Prim'' ?A) = length (select_algorithm ''Kruskal'' ?A)"
    by (simp add: scenario_A_def csv_row_def select_algorithm_def)
  have 2: "ties ?A = 0"
    by (simp add: ties_def sum_bools_def scenario_A_def csv_row_def select_algorithm_def)
  have 3: "length (select_algorithm ''Prim'' ?A) = 2"
    by (simp add: scenario_A_def csv_row_def select_algorithm_def)
  from win_count_invariant [OF 1] obtain s where
    s: "generate_summary_statistics ?A = Inr s"
      "prim_wins s + kruskal_wins s + ties ?A = prim_total_graphs s"
    by blast
  from s(1) 3 have "prim_total_graphs s = 2"
    by (auto simp add: generate_summary_statistics_def Let_def split: sum.splits)
  with s 2 1 show ?thesis by auto
qed

text \<open>
  C7. When reading the file raises, the loader prints the error and returns no frame,
  and the entry point returns after it: no report is generated and no artifact written.
\<close>

theorem load_failure_writes_nothing:
  "read_csv filepath = Inl e \<Longrightarrow>
     load_csv_data read_csv filepath = (None, [ErrorLoading filepath e]) \<and>
     main read_csv filepath output =
       \<lparr>console = [Banner, ErrorLoading filepath e], artifacts = []\<rparr>"
  by (simp add: load_csv_data_def main_def)

theorem load_failure_writes_nothing_witness:
  "(\<lambda>p. Inl ''No such file or directory'') ''data/output/comparison.csv''
     = (Inl ''No such file or directory'' :: string + DataFrame) \<and>
   load_csv_data (\<lambda>p. Inl ''No such file or directory'') ''data/output/comparison.csv''
     = (None, [ErrorLoading ''data/output/comparison.csv'' ''No such file or directory'']) \<and>
   artifacts (main (\<lambda>p. Inl ''No such file or directory'') ''data/output/comparison.csv''
                ''docs/plots'') = []"
  using load_failure_writes_nothing
    [of "\<lambda>p. Inl ''No such file or directory''" "''data/output/comparison.csv''"
        "''No such file or directory''" "''docs/plots''"]
  by simp

text \<open>
  For comparison, a run on a file that loads and holds Scenario A writes all seven
  artifacts.
\<close>

lemma main_writes_all_reports:
  "artifacts (main (\<lambda>p. Inr (scenario_A ''G1'' ''G2'' e ops)) ''comparison.csv'' ''docs/plots'') =
     [''docs/plots/execution_time_comparison.png'', ''docs/plots/operations_comparison.png'',
      ''docs/plots/mst_cost_verification.png'', ''docs/plots/performance_ratio.png'',
      ''docs/plots/edge_density_impact.png'', ''docs/plots/comprehensive_comparison.png'',
      ''docs/plots/summary_statistics.txt'']"
  by (simp add: main_def load_csv_data_def report_generators_def raised_def path_join_def
        scenario_A_def evaluate_reports)

text \<open>
  C8, as amended. Every line series and the bars of the performance-ratio report are in
  ascending order of \<open>Vertices\<close>. The series do not depend on the order of the rows of
  the input under these conditions: the line series when no two records of one algorithm
  have the same number of vertices; the bars when every graph has exactly one record of
  each algorithm and its records agree on the number of vertices.
\<close>

theorem series_ascending_by_vertices:
  "sorted (fst (fst (plot_execution_time_comparison df))) \<and>
   sorted (fst (snd (plot_execution_time_comparison df))) \<and>
   sorted (fst (fst (plot_operations_comparison df))) \<and>
   sorted (fst (snd (plot_operations_comparison df))) \<and>
   (\<forall>rep. plot_performance_ratio df = Inr rep \<longrightarrow> sorted (bar_vertices rep)) \<and>
   (mset df' = mset df \<and> distinct_vertices df \<longrightarrow>
      plot_execution_time_comparison df' = plot_execution_time_comparison df \<and>
      plot_operations_comparison df' = plot_operations_comparison df \<and>
      plot_mst_cost_verification df' = plot_mst_cost_verification df) \<and>
   (mset df' = mset df \<and> one_record_per_algorithm df \<and> same_vertices_per_graph df \<longrightarrow>
      plot_performance_ratio df' = plot_performance_ratio df)"
proof (intro conjI allI impI)
  show "sorted (fst (fst (plot_execution_time_comparison df)))"
    by (simp add: plot_execution_time_comparison_def Let_def line_series_def sorted_frame_ascending)
  show "sorted (fst (snd (plot_execution_time_comparison df)))"
    by (simp add: plot_execution_time_comparison_def Let_def line_series_def sorted_frame_ascending)
  show "sorted (fst (fst (plot_operations_comparison df)))"
    by (simp add: plot_operations_comparison_def Let_def line_series_def sorted_frame_ascending)
  show "sorted (fst (snd (plot_operations_comparison df)))"
    by (simp add: plot_operations_comparison_def Let_def line_series_def sorted_frame_ascending)
  show "sorted (bar_vertices rep)" if "plot_performance_ratio df = Inr rep" for rep
    using that by (rule ratio_report_ascending)
next
  assume a: "mset df' = mset df \<and> distinct_vertices df"
  then have perm: "mset df' = mset df"
    and dp: "distinct (map Vertices (select_algorithm ''Prim'' df))"
    and dk: "distinct (map Vertices (select_algorithm ''Kruskal'' df))"
    by (simp_all add: distinct_vertices_def)
  have p: "sort_values_Vertices (select_algorithm ''Prim'' df') =
             sort_values_Vertices (select_algorithm ''Prim'' df)"
    using perm dp by (rule sorted_frame_permuted)
  have k: "sort_values_Vertices (select_algorithm ''Kruskal'' df') =
             sort_values_Vertices (select_algorithm ''Kruskal'' df)"
    using perm dk by (rule sorted_frame_permuted)
  show "plot_execution_time_comparison df' = plot_execution_time_comparison df"
    by (simp only: plot_execution_time_comparison_def p k)
  show "plot_operations_comparison df' = plot_operations_comparison df"
    by (simp only: plot_operations_comparison_def p k)
  show "plot_mst_cost_verification df' = plot_mst_cost_verification df"
    by (simp only: plot_mst_cost_verification_def p k)
next
  assume "mset df' = mset df \<and> one_record_per_algorithm df \<and> same_vertices_per_graph df"
  then have "mset df' = mset df" "one_record_per_algorithm df" "same_vertices_per_graph df"
    by blast+
  then show "plot_performance_ratio df' = plot_performance_ratio df"
    by (rule ratio_report_permuted)
qed

text \<open>The theorem at Scenario A and its rows in reverse order.\<close>

theorem series_ascending_by_vertices_witness:
  "mset (rev (scenario_A ''G1'' ''G2'' (\<lambda>i. 0) (\<lambda>i. 0))) = mset (scenario_A ''G1'' ''G2'' (\<lambda>i. 0) (\<lambda>i. 0)) \<and>
   distinct_vertices (scenario_A ''G1'' ''G2'' (\<lambda>i. 0) (\<lambda>i. 0)) \<and>
   one_record_per_algorithm (scenario_A ''G1'' ''G2'' (\<lambda>i. 0) (\<lambda>i. 0)) \<and>
   same_vertices_per_graph (scenario_A ''G1'' ''G2'' (\<lambda>i. 0) (\<lambda>i. 0)) \<and>
   plot_execution_time_comparison (rev (scenario_A ''G1'' ''G2'' (\<lambda>i. 0) (\<lambda>i. 0))) =
     (([10, 20], [5, 12]), ([10, 20], [4, 9])) \<and>
   plot_performance_ratio (rev (scenario_A ''G1'' ''G2'' (\<lambda>i. 0) (\<lambda>i. 0))) =
     Inr \<lparr>bar_vertices = [10, 20], bar_ratios = [Fin (4 / 5), Fin (3 / 4)],
          bar_colors = [''green'', ''green'']\<rparr>"
proof -
  let ?A = "scenario_A ''G1'' ''G2'' (\<lambda>i. 0) (\<lambda>i. 0)"
  have 1: "mset (rev ?A) = mset ?A" by simp
  have 2: "distinct_vertices ?A"
    by (simp add: distinct_vertices_def scenario_A_def csv_row_def select_algorithm_def)
  have 3: "one_record_per_algorithm ?A"
    by (simp add: one_record_per_algorithm_def scenario_A_def csv_row_def select_algorithm_def)
  have 4: "same_vertices_per_graph ?A"
    by (simp add: same_vertices_per_graph_def scenario_A_def csv_row_def)
  have 5: "plot_execution_time_comparison ?A = (([10, 20], [5, 12]), ([10, 20], [4, 9]))"
    by (simp add: scenario_A_def csv_row_def plot_execution_time_comparison_def
          select_algorithm_def sort_values_Vertices_def line_series_def)
  have 6: "plot_performance_ratio ?A =
     Inr \<lparr>bar_vertices = [10, 20], bar_ratios = [Fin (4 / 5), Fin (3 / 4)],
          bar_colors = [''green'', ''green'']\<rparr>"
    by (simp add: scenario_A_def evaluate_reports)
  from series_ascending_by_vertices [of ?A "rev ?A"] 1 2 3 4 5 6
  show ?thesis by simp
qed

text \<open>
  C8, as stated, fails when two records of one algorithm have the same number of
  vertices: exchanging the two rows of Prim with 10 vertices exchanges their times in
  the plotted series. The sort is by \<open>Vertices\<close> alone, so the order it gives to
  such rows is a function of their order in the input.
\<close>

theorem tied_vertices_order_dependent:
  "mset tied_vertices_permuted = mset tied_vertices \<and>
   plot_execution_time_comparison tied_vertices =
     (([10, 10, 20], [5, 7, 9]), ([10, 10, 20], [4, 6, 8])) \<and>
   plot_execution_time_comparison tied_vertices_permuted =
     (([10, 10, 20], [7, 5, 9]), ([10, 10, 20], [4, 6, 8])) \<and>
   plot_execution_time_comparison tied_vertices_permuted \<noteq>
     plot_execution_time_comparison tied_vertices"
  by (simp add: tied_vertices_def tied_vertices_permuted_def csv_row_def
        plot_execution_time_comparison_def select_algorithm_def sort_values_Vertices_def
        line_series_def)

text \<open>
  C9, as amended. The win counts of the summary compare the two time arrays position
  by position, in the order of the rows of the frame, with no sort and no join on the
  graph. When every graph has one record of each algorithm and the two sub-frames list
  the graphs in the same order, the counts are the win counts per graph. When the orders
  differ the counts can be wrong: in the second crossed frame the summary counts two wins
  of Prim and none of Kruskal, where each algorithm wins on one graph.
\<close>

theorem positional_win_counts:
  "(length (select_algorithm ''Prim'' df) = length (select_algorithm ''Kruskal'' df) \<longrightarrow>
      map_sum id (\<lambda>s. (prim_wins s, kruskal_wins s)) (generate_summary_statistics df) =
        Inr (sum_bools (map2 (<) (map Time_ms (select_algorithm ''Prim'' df))
                                 (map Time_ms (select_algorithm ''Kruskal'' df))),
             sum_bools (map2 (<) (map Time_ms (select_algorithm ''Kruskal'' df))
                                 (map Time_ms (select_algorithm ''Prim'' df))))) \<and>
   (one_record_per_algorithm df \<and>
    map Graph (select_algorithm ''Prim'' df) = map Graph (select_algorithm ''Kruskal'' df) \<longrightarrow>
      map_sum id (\<lambda>s. (prim_wins s, kruskal_wins s)) (generate_summary_statistics df) =
        Inr (per_graph_wins ''Prim'' ''Kruskal'' df, per_graph_wins ''Kruskal'' ''Prim'' df)) \<and>
   map Graph (select_algorithm ''Prim'' crossed_order_wrong_counts) \<noteq>
     map Graph (select_algorithm ''Kruskal'' crossed_order_wrong_counts) \<and>
   map_sum id (\<lambda>s. (prim_wins s, kruskal_wins s))
       (generate_summary_statistics crossed_order_wrong_counts) = Inr (2, 0) \<and>
   per_graph_wins ''Prim'' ''Kruskal'' crossed_order_wrong_counts = 1 \<and>
   per_graph_wins ''Kruskal'' ''Prim'' crossed_order_wrong_counts = 1"
proof (intro conjI impI)
  have pos: "map_sum id (\<lambda>s. (prim_wins s, kruskal_wins s)) (generate_summary_statistics df) =
        Inr (sum_bools (map2 (<) (map Time_ms (select_algorithm ''Prim'' df))
                                 (map Time_ms (select_algorithm ''Kruskal'' df))),
             sum_bools (map2 (<) (map Time_ms (select_algorithm ''Kruskal'' df))
                                 (map Time_ms (select_algorithm ''Prim'' df))))"
    if "length (select_algorithm ''Prim'' df) = length (select_algorithm ''Kruskal'' df)" for df
    using that
    by (simp add: generate_summary_statistics_def Let_def np_broadcast_def np_allclose_def)
  show "map_sum id (\<lambda>s. (prim_wins s, kruskal_wins s)) (generate_summary_statistics df) =
        Inr (sum_bools (map2 (<) (map Time_ms (select_algorithm ''Prim'' df))
                                 (map Time_ms (select_algorithm ''Kruskal'' df))),
             sum_bools (map2 (<) (map Time_ms (select_algorithm ''Kruskal'' df))
                                 (map Time_ms (select_algorithm ''Prim'' df))))"
    if "length (select_algorithm ''Prim'' df) = length (select_algorithm ''Kruskal'' df)"
    using that by (rule pos)
  show "map_sum id (\<lambda>s. (prim_wins s, kruskal_wins s)) (generate_summary_statistics df) =
        Inr (per_graph_wins ''Prim'' ''Kruskal'' df, per_graph_wins ''Kruskal'' ''Prim'' df)"
    if h: "one_record_per_algorithm df \<and>
       map Graph (select_algorithm ''Prim'' df) = map Graph (select_algorithm ''Kruskal'' df)"
  proof -
    from h have inv: "one_record_per_algorithm df"
      and same: "map Graph (select_algorithm ''Prim'' df) = map Graph (select_algorithm ''Kruskal'' df)"
      by blast+
    from same have len: "length (select_algorithm ''Prim'' df) = length (select_algorithm ''Kruskal'' df)"
      by (rule map_eq_imp_length_eq)
    have 1: "sum_bools (map2 (<) (map Time_ms (select_algorithm ''Prim'' df))
                                 (map Time_ms (select_algorithm ''Kruskal'' df))) =
             per_graph_wins ''Prim'' ''Kruskal'' df"
      by (rule positional_wins_per_graph [OF inv _ _ same]) simp_all
    have 2: "sum_bools (map2 (<) (map Time_ms (select_algorithm ''Kruskal'' df))
                                 (map Time_ms (select_algorithm ''Prim'' df))) =
             per_graph_wins ''Kruskal'' ''Prim'' df"
      by (rule positional_wins_per_graph [OF inv _ _ same [symmetric]]) simp_all
    from pos [OF len] show ?thesis by (simp only: 1 2)
  qed
  show "map Graph (select_algorithm ''Prim'' crossed_order_wrong_counts) \<noteq>
     map Graph (select_algorithm ''Kruskal'' crossed_order_wrong_counts)"
    by (simp add: crossed_order_wrong_counts_def csv_row_def select_algorithm_def)
  show "map_sum id (\<lambda>s. (prim_wins s, kruskal_wins s))
       (generate_summary_statistics crossed_order_wrong_counts) = Inr (2, 0)"
    by (simp add: crossed_order_wrong_counts_def evaluate_reports)
  show "per_graph_wins ''Prim'' ''Kruskal'' crossed_order_wrong_counts = 1"
    by (simp add: crossed_order_wrong_counts_def csv_row_def per_graph_wins_def faster_on_def
          select_algorithm_def)
  show "per_graph_wins ''Kruskal'' ''Prim'' crossed_order_wrong_counts = 1"
    by (simp add: crossed_order_wrong_counts_def csv_row_def per_graph_wins_def faster_on_def
          select_algorithm_def)
qed

text \<open>The theorem at Scenario A, whose sub-frames list the graphs in the same order.\<close>

theorem positional_win_counts_witness:
  "one_record_per_algorithm (scenario_A ''G1'' ''G2'' (\<lambda>i. 0) (\<lambda>i. 0)) \<and>
   map Graph (select_algorithm ''Prim'' (scenario_A ''G1'' ''G2'' (\<lambda>i. 0) (\<lambda>i. 0))) =
     map Graph (select_algorithm ''Kruskal'' (scenario_A ''G1'' ''G2'' (\<lambda>i. 0) (\<lambda>i. 0))) \<and>
   length (select_algorithm ''Prim'' (scenario_A ''G1'' ''G2'' (\<lambda>i. 0) (\<lambda>i. 0))) =
     length (select_algorithm ''Kruskal'' (scenario_A ''G1'' ''G2'' (\<lambda>i. 0) (\<lambda>i. 0))) \<and>
   map_sum id (\<lambda>s. (prim_wins s, kruskal_wins s))
       (generate_summary_statistics (scenario_A ''G1'' ''G2'' (\<lambda>i. 0) (\<lambda>i. 0))) = Inr (0, 2) \<and>
   per_graph_wins ''Prim'' ''Kruskal'' (scenario_A ''G1'' ''G2'' (\<lambda>i. 0) (\<lambda>i. 0)) = 0 \<and>
   per_graph_wins ''Kruskal'' ''Prim'' (scenario_A ''G1'' ''G2'' (\<lambda>i. 0) (\<lambda>i. 0)) = 2"
proof -
  let ?A = "scenario_A ''G1'' ''G2'' (\<lambda>i. 0) (\<lambda>i. 0)"
  have 1: "one_record_per_algorithm ?A"
    by (simp add: one_record_per_algorithm_def scenario_A_def csv_row_def select_algorithm_def)
  have 2: "map Graph (select_algorithm ''Prim'' ?A) = map Graph (select_algorithm ''Kruskal'' ?A)"
    by (simp add: scenario_A_def csv_row_def select_algorithm_def)
  have 3: "length (select_algorithm ''Prim'' ?A) = length (select_algorithm ''Kruskal'' ?A)"
    by (simp add: scenario_A_def csv_row_def select_algorithm_def)
  have 4: "sum_bools (map2 (<) (map Time_ms (select_algorithm ''Prim'' ?A))
                                 (map Time_ms (select_algorithm ''Kruskal'' ?A))) = 0"
    by (simp add: scenario_A_def csv_row_def select_algorithm_def sum_bools_def)
  have 5: "sum_bools (map2 (<) (map Time_ms (select_algorithm ''Kruskal'' ?A))
                                 (map Time_ms (select_algorithm ''Prim'' ?A))) = 2"
    by (simp add: scenario_A_def csv_row_def select_algorithm_def sum_bools_def)
  from positional_win_counts [of ?A] 3
  have a: "map_sum id (\<lambda>s. (prim_wins s, kruskal_wins s)) (generate_summary_statistics ?A) =
        Inr (sum_bools (map2 (<) (map Time_ms (select_algorithm ''Prim'' ?A))
                                 (map Time_ms (select_algorithm ''Kruskal'' ?A))),
             sum_bools (map2 (<) (map Time_ms (select_algorithm ''Kruskal'' ?A))
                                 (map Time_ms (select_algorithm ''Prim'' ?A))))"
    by blast
  from positional_win_counts [of ?A] 1 2
  have b: "map_sum id (\<lambda>s. (prim_wins s, kruskal_wins s)) (generate_summary_statistics ?A) =
        Inr (per_graph_wins ''Prim'' ''Kruskal'' ?A, per_graph_wins ''Kruskal'' ''Prim'' ?A)"
    by blast
  from a have c: "map_sum id (\<lambda>s. (prim_wins s, kruskal_wins s))
                    (generate_summary_statistics ?A) = Inr (0, 2)"
    by (simp only: 4 5)
  from b c have d: "per_graph_wins ''Prim'' ''Kruskal'' ?A = 0"
    "per_graph_wins ''Kruskal'' ''Prim'' ?A = 2"
    by simp_all
  from 1 2 3 c d show ?thesis by blast
qed

text \<open>
  C9, as stated, fails in its direction from correct counts to the same order: in the
  first crossed frame the two sub-frames list the graphs in different orders and yet the
  counts of the summary are the win counts per graph.
\<close>

theorem crossed_order_counts_correct:
  "map Graph (select_algorithm ''Prim'' crossed_order_same_counts) \<noteq>
     map Graph (select_algorithm ''Kruskal'' crossed_order_same_counts) \<and>
   one_record_per_algorithm crossed_order_same_counts \<and>
   map_sum id (\<lambda>s. (prim_wins s, kruskal_wins s))
       (generate_summary_statistics crossed_order_same_counts) =
     Inr (per_graph_wins ''Prim'' ''Kruskal'' crossed_order_same_counts,
          per_graph_wins ''Kruskal'' ''Prim'' crossed_order_same_counts) \<and>
   per_graph_wins ''Prim'' ''Kruskal'' crossed_order_same_counts = 2 \<and>
   per_graph_wins ''Kruskal'' ''Prim'' crossed_order_same_counts = 0"
proof -
  have 1: "map Graph (select_algorithm ''Prim'' crossed_order_same_counts) \<noteq>
     map Graph (select_algorithm ''Kruskal'' crossed_order_same_counts)"
    by (simp add: crossed_order_same_counts_def csv_row_def select_algorithm_def)
  have 2: "one_record_per_algorithm crossed_order_same_counts"
    by (simp add: one_record_per_algorithm_def crossed_order_same_counts_def csv_row_def
          select_algorithm_def)
  have 3: "map_sum id (\<lambda>s. (prim_wins s, kruskal_wins s))
       (generate_summary_statistics crossed_order_same_counts) = Inr (2, 0)"
    by (simp add: crossed_order_same_counts_def evaluate_reports)
  have 4: "per_graph_wins ''Prim'' ''Kruskal'' crossed_order_same_counts = 2"
    by (simp add: crossed_order_same_counts_def csv_row_def per_graph_wins_def faster_on_def
          select_algorithm_def)
  have 5: "per_graph_wins ''Kruskal'' ''Prim'' crossed_order_same_counts = 0"
    by (simp add: crossed_order_same_counts_def csv_row_def per_graph_wins_def faster_on_def
          select_algorithm_def)
  from 1 2 3 4 5 show ?thesis by simp
qed

text \<open>
  C10. When no group passes the guard on the time of Prim, the performance-ratio report
  raises. When moreover every group has a record of both algorithms, the loop ends with
  two empty lists, and it is the unpacking of the empty list of sorted pairs that raises
  \<open>ValueError\<close>.
\<close>

theorem no_ratio_raises:
  assumes "no_group_passes df"
  shows "(\<exists>e. plot_performance_ratio df = Inl e) \<and>
         (groups_complete df
          \<longrightarrow> ratio_loop (groupby_Graph df) [] [] = Inr ([], []) \<and>
              unzip_pairs (py_sorted tuple_lt (zip ([]::int list) ([]::np_float list)))
                = Inl ValueError \<and>
              plot_performance_ratio df = Inl ValueError)"
proof (cases "groups_complete df")
  case True
  then have "\<forall>(g, grp) \<in> set (groupby_Graph df).
        select_algorithm ''Prim'' grp \<noteq> [] \<and> select_algorithm ''Kruskal'' grp \<noteq> []"
    by (simp add: groups_complete_def)
  from ratio_loop_none_passes [OF this] assms
  have "ratio_loop (groupby_Graph df) [] [] = Inr ([], [])"
    by (simp add: no_group_passes_def)
  then show ?thesis
    by (simp add: plot_performance_ratio_def py_sorted_def unzip_pairs_def)
next
  case False
  then obtain g grp where "(g, grp) \<in> set (groupby_Graph df)"
    "select_algorithm ''Prim'' grp = [] \<or> select_algorithm ''Kruskal'' grp = []"
    by (auto simp add: groups_complete_def)
  from ratio_loop_missing [OF this] False show ?thesis
    by (simp add: plot_performance_ratio_def)
qed

text \<open>The theorem at the empty frame and at a frame whose one time of Prim is zero.\<close>

theorem no_ratio_raises_witness:
  "no_group_passes [] \<and> groups_complete [] \<and>
   plot_performance_ratio [] = Inl ValueError \<and>
   no_group_passes all_prim_times_zero \<and> groups_complete all_prim_times_zero \<and>
   plot_performance_ratio all_prim_times_zero = Inl ValueError"
proof -
  have 1: "no_group_passes []"
    by (simp add: no_group_passes_def groupby_Graph_def)
  have 2: "groups_complete []"
    by (simp add: groups_complete_def groupby_Graph_def)
  have 3: "no_group_passes all_prim_times_zero"
    by (simp add: no_group_passes_def all_prim_times_zero_def csv_row_def groupby_Graph_def
          select_algorithm_def)
  have 4: "groups_complete all_prim_times_zero"
    by (simp add: groups_complete_def all_prim_times_zero_def csv_row_def groupby_Graph_def
          select_algorithm_def)
  from no_ratio_raises [OF 1] 2 have "plot_performance_ratio [] = Inl ValueError" by blast
  moreover from no_ratio_raises [OF 3] 4
  have "plot_performance_ratio all_prim_times_zero = Inl ValueError" by blast
  ultimately show ?thesis using 1 2 3 4 by blast
qed

end
